theory Spec2Isabelle
  imports Main "HOL-Library.Word"
begin

unbundle bit_operations_syntax

section \<open>Python primitives used by the assembler and the simulator\<close>

text \<open>
  Bit strings are Python \<open>str\<close> values over the characters \<open>0\<close> and \<open>1\<close>; they are
  modelled as \<open>string\<close>. Python integers are unbounded and are modelled as \<open>int\<close>.
  Every exception the simulator can raise is a constructor of \<open>error\<close>; the texts of the
  \<open>ValueError\<close> messages are kept as constructors with the values they print.
\<close>

datatype error =
    IndexError
  | InvalidLiteral string
  | Unknown_R_funct7 string
  | Unknown_R_funct3 string
  | Invalid_memory_address int
  | Unknown_I_type string string
  | Unknown_S_type string string
  | Unknown_B_funct3 string
  | Unknown_J_opcode string
  | Unknown_opcode string

text \<open>Sequencing of fallible steps: the first exception raised is the result.\<close>

definition ebind :: "'e + 'a \<Rightarrow> ('a \<Rightarrow> 'e + 'b) \<Rightarrow> 'e + 'b" where
  "ebind r f = (case r of Inl e \<Rightarrow> Inl e | Inr v \<Rightarrow> f v)"

text \<open>\<open>s[a:b]\<close> for \<open>0 \<le> a \<le> b\<close>: slicing never raises, it clips at the end of the string.\<close>

definition slice :: "nat \<Rightarrow> nat \<Rightarrow> 'a list \<Rightarrow> 'a list" where
  "slice a b s = take (b - a) (drop a s)"

text \<open>\<open>s[i]\<close> for \<open>0 \<le> i\<close>: raises \<open>IndexError\<close> past the end.\<close>

definition index :: "string \<Rightarrow> nat \<Rightarrow> error + char" where
  "index s i = (if i < length s then Inr (s ! i) else Inl IndexError)"

definition is_bit :: "char \<Rightarrow> bool" where
  "is_bit c = (c = CHR ''0'' \<or> c = CHR ''1'')"

definition bit_val :: "char \<Rightarrow> int" where
  "bit_val c = (if c = CHR ''1'' then 1 else 0)"

definition bits_val :: "string \<Rightarrow> int" where
  "bits_val s = foldl (\<lambda>a c. 2 * a + bit_val c) 0 s"

text \<open>
  \<open>int(s, 2)\<close> on a string made of the characters \<open>0\<close> and \<open>1\<close>; the empty string raises
  \<open>ValueError\<close>. The simulator only ever passes slices of a 32-character instruction
  string over \<open>0\<close> and \<open>1\<close> (lemma \<open>instr_bin_wf\<close> below), so the other literals Python's
  \<open>int\<close> accepts (sign, whitespace, underscores, a \<open>0b\<close> prefix) are reported as errors
  here and every theorem that depends on the difference assumes a well-formed word.
\<close>

definition int2 :: "string \<Rightarrow> error + int" where
  "int2 s = (if s \<noteq> [] \<and> list_all is_bit s then Inr (bits_val s) else Inl (InvalidLiteral s))"

text \<open>The digits of \<open>bin(n)\<close> for \<open>n \<ge> 0\<close>, most significant first, \<open>0\<close> for zero.\<close>

fun bin_digits :: "nat \<Rightarrow> string" where
  "bin_digits n =
     (if n < 2 then [if n = 0 then CHR ''0'' else CHR ''1'']
      else bin_digits (n div 2) @ [if n mod 2 = 0 then CHR ''0'' else CHR ''1''])"

declare bin_digits.simps [simp del]

definition bin :: "int \<Rightarrow> string" where
  "bin n = (if n < 0 then ''-0b'' @ bin_digits (nat (- n)) else ''0b'' @ bin_digits (nat n))"

text \<open>\<open>s.zfill(width)\<close>: pads with zeros on the left, after a leading sign if there is one.\<close>

definition zfill :: "string \<Rightarrow> nat \<Rightarrow> string" where
  "zfill s width =
     (if width \<le> length s then s
      else (case s of
              [] \<Rightarrow> replicate width CHR ''0''
            | c # rest \<Rightarrow>
                if c = CHR ''+'' \<or> c = CHR ''-''
                then c # replicate (width - length s) CHR ''0'' @ rest
                else replicate (width - length s) CHR ''0'' @ s))"

section \<open>Bit codec\<close>

text \<open>\<open>make_binary\<close> of the assembler.\<close>

definition make_binary :: "int \<Rightarrow> nat \<Rightarrow> string" where
  "make_binary num sz =
     (let num = (if num < 0 then 2 ^ sz + num else num)
      in zfill (drop 2 (bin num)) sz)"

text \<open>
  \<open>binary_to_decimal\<close> of the simulator. \<open>binary_str[-bits:]\<close> is the last \<open>bits\<close>
  characters (the whole string when \<open>bits\<close> is 0); \<open>binary_str[0]\<close> raises on the empty string.
\<close>

definition binary_to_decimal :: "string \<Rightarrow> nat \<Rightarrow> error + int" where
  "binary_to_decimal binary_str bits =
     (let binary_str =
            (if length binary_str > bits
             then (if bits = 0 then binary_str else drop (length binary_str - bits) binary_str)
             else binary_str)
      in ebind (index binary_str 0) (\<lambda>c.
           if c = CHR ''1''
           then (let inverted = map (\<lambda>b. if b = CHR ''0'' then CHR ''1'' else CHR ''0'') binary_str
                 in ebind (int2 inverted) (\<lambda>v. Inr (- 1 * (v + 1))))
           else int2 binary_str))"

section \<open>Simulator: the execution engine\<close>

text \<open>
  The register file is the dictionary with the keys \<open>x0\<close> .. \<open>x31\<close>; the key \<open>x{i}\<close> is
  modelled as the integer \<open>i\<close>. Every index an executor reads is the value of a field of
  at most five characters, hence in \<open>0 .. 31\<close>, so the lookup never raises \<open>KeyError\<close>.
  Memory is the Python list of words.

  An executor returns the next program counter together with the register file and the
  memory as it leaves them, or the exception it raises. In every executor each \<open>raise\<close>
  comes before the first write, so the state at an exception is the state on entry.
\<close>

type_synonym regfile = "int \<Rightarrow> int"

definition write_register :: "regfile \<Rightarrow> int \<Rightarrow> int \<Rightarrow> regfile" where
  "write_register registers reg_num v =
     (if reg_num \<noteq> 0 then registers(reg_num := v AND 0xFFFFFFFF) else registers)"

definition execute_r_type ::
  "string \<Rightarrow> int \<Rightarrow> regfile \<Rightarrow> int list \<Rightarrow> error + (int \<times> regfile \<times> int list)" where
  "execute_r_type instr pc registers memory =
     (let funct7 = take 7 instr in
      ebind (int2 (slice 7 12 instr)) (\<lambda>rs2.
      ebind (int2 (slice 12 17 instr)) (\<lambda>rs1.
      let funct3 = slice 17 20 instr in
      ebind (int2 (slice 20 25 instr)) (\<lambda>rd.
      let rs1_val = registers rs1;
          rs2_val = registers rs2
      in ebind
           (if funct3 = ''000'' then
              (if funct7 = ''0000000'' then Inr (rs1_val + rs2_val)
               else if funct7 = ''0100000'' then Inr (rs1_val - rs2_val)
               else Inl (Unknown_R_funct7 funct7))
            else if funct3 = ''010'' then Inr (if rs1_val < rs2_val then 1 else 0)
            else if funct3 = ''101'' then Inr (drop_bit (nat (rs2_val mod 32)) rs1_val)
            else if funct3 = ''110'' then Inr (rs1_val OR rs2_val)
            else if funct3 = ''111'' then Inr (rs1_val AND rs2_val)
            else Inl (Unknown_R_funct3 funct3))
           (\<lambda>result. Inr (pc + 4, write_register registers rd result, memory))))))"

definition execute_i_type ::
  "string \<Rightarrow> int \<Rightarrow> regfile \<Rightarrow> int list \<Rightarrow> error + (int \<times> regfile \<times> int list)" where
  "execute_i_type instr pc registers memory =
     ebind (binary_to_decimal (take 12 instr) 12) (\<lambda>imm.
     ebind (int2 (slice 12 17 instr)) (\<lambda>rs1.
     let funct3 = slice 17 20 instr in
     ebind (int2 (slice 20 25 instr)) (\<lambda>rd.
     let opcode = drop 25 instr;
         rs1_val = registers rs1
     in if opcode = ''0010011'' \<and> funct3 = ''000'' then
          Inr (pc + 4, write_register registers rd (rs1_val + imm), memory)
        else if opcode = ''0000011'' \<and> funct3 = ''010'' then
          (let addr = rs1_val + imm
           in if 0 \<le> addr \<and> addr < int (length memory) * 4
              then Inr (pc + 4, write_register registers rd (memory ! nat (addr div 4)), memory)
              else Inl (Invalid_memory_address addr))
        else if opcode = ''1100111'' \<and> funct3 = ''000'' then
          Inr (rs1_val + imm, write_register registers rd (pc + 4), memory)
        else Inl (Unknown_I_type opcode funct3))))"

definition execute_s_type ::
  "string \<Rightarrow> int \<Rightarrow> regfile \<Rightarrow> int list \<Rightarrow> error + (int \<times> regfile \<times> int list)" where
  "execute_s_type instr pc registers memory =
     (let imm_high = take 7 instr in
      ebind (int2 (slice 7 12 instr)) (\<lambda>rs2.
      ebind (int2 (slice 12 17 instr)) (\<lambda>rs1.
      let funct3 = slice 17 20 instr;
          imm_low = slice 20 25 instr;
          opcode = drop 25 instr
      in ebind (binary_to_decimal (imm_high @ imm_low) 12) (\<lambda>imm.
         let rs1_val = registers rs1;
             rs2_val = registers rs2
         in if opcode = ''0100011'' \<and> funct3 = ''010'' then
              (let addr = rs1_val + imm
               in if 0 \<le> addr \<and> addr < int (length memory) * 4
                  then Inr (pc + 4, registers, memory[nat (addr div 4) := rs2_val])
                  else Inl (Invalid_memory_address addr))
            else Inl (Unknown_S_type opcode funct3)))))"

definition execute_b_type ::
  "string \<Rightarrow> int \<Rightarrow> regfile \<Rightarrow> int list \<Rightarrow> error + (int \<times> regfile \<times> int list)" where
  "execute_b_type instr pc registers memory =
     ebind (index instr 0) (\<lambda>imm_12.
     let imm_10_5 = slice 1 7 instr in
     ebind (int2 (slice 7 12 instr)) (\<lambda>rs2.
     ebind (int2 (slice 12 17 instr)) (\<lambda>rs1.
     let funct3 = slice 17 20 instr;
         imm_4_1 = slice 20 24 instr
     in ebind (index instr 24) (\<lambda>imm_11.
        let opcode = drop 25 instr in
        ebind (binary_to_decimal ([imm_12] @ [imm_11] @ imm_10_5 @ imm_4_1 @ ''0'') 13) (\<lambda>imm.
        let rs1_val = registers rs1;
            rs2_val = registers rs2
        in if rs1 = 0 \<and> rs2 = 0 \<and> imm = 0 \<and> opcode = ''1100011'' then
             Inr (- 1, registers, memory)
           else
             ebind
               (if funct3 = ''000'' then Inr (rs1_val = rs2_val)
                else if funct3 = ''001'' then Inr (rs1_val \<noteq> rs2_val)
                else Inl (Unknown_B_funct3 funct3))
               (\<lambda>branch_taken.
                  Inr (pc + (if branch_taken then imm else 4), registers, memory)))))))"

definition execute_j_type ::
  "string \<Rightarrow> int \<Rightarrow> regfile \<Rightarrow> int list \<Rightarrow> error + (int \<times> regfile \<times> int list)" where
  "execute_j_type instr pc registers memory =
     ebind (index instr 0) (\<lambda>imm_20.
     let imm_10_1 = slice 1 11 instr in
     ebind (index instr 11) (\<lambda>imm_11.
     let imm_19_12 = slice 12 20 instr in
     ebind (int2 (slice 20 25 instr)) (\<lambda>rd.
     let opcode = drop 25 instr in
     ebind (binary_to_decimal ([imm_20] @ imm_19_12 @ [imm_11] @ imm_10_1 @ ''0'') 21) (\<lambda>imm.
     if opcode = ''1101111'' then
       Inr (pc + imm, write_register registers rd (pc + 4), memory)
     else Inl (Unknown_J_opcode opcode)))))"

text \<open>
  The body of the \<open>try\<close> of \<open>execute_instruction\<close>: dispatch on the last seven characters.
\<close>

definition dispatch ::
  "string \<Rightarrow> int \<Rightarrow> regfile \<Rightarrow> int list \<Rightarrow> error + (int \<times> regfile \<times> int list)" where
  "dispatch instruction pc registers memory =
     (let opcode = drop 25 instruction
      in if opcode = ''0110011'' then execute_r_type instruction pc registers memory
         else if opcode \<in> {''0010011'', ''0000011'', ''1100111''} then
           execute_i_type instruction pc registers memory
         else if opcode = ''0100011'' then execute_s_type instruction pc registers memory
         else if opcode = ''1100011'' then execute_b_type instruction pc registers memory
         else if opcode = ''1101111'' then execute_j_type instruction pc registers memory
         else if opcode = ''1110011'' then Inr (- 1, registers, memory)
         else Inl (Unknown_opcode opcode))"

text \<open>
  \<open>execute_instruction\<close>: any exception is caught, reported and turned into the error
  sentinel \<open>-2\<close>; the halt sentinel is \<open>-1\<close>.
\<close>

definition execute_instruction ::
  "string \<Rightarrow> int \<Rightarrow> regfile \<Rightarrow> int list \<Rightarrow> int \<times> regfile \<times> int list" where
  "execute_instruction instruction pc registers memory =
     (case dispatch instruction pc registers memory of
        Inl e \<Rightarrow> (- 2, registers, memory)
      | Inr r \<Rightarrow> r)"

section \<open>Simulator: loading and the simulation driver\<close>

definition initialize_registers :: regfile where
  "initialize_registers = (\<lambda>i. 0)"

definition initialize_memory :: "nat \<Rightarrow> int list" where
  "initialize_memory sz = replicate sz 0"

text \<open>
  ASCII white space as \<open>str.strip\<close> and \<open>str.split\<close> see it: tab, line feed, vertical
  tab, form feed, carriage return, the four separators \<open>0x1c\<close> .. \<open>0x1f\<close> and the space.
\<close>

definition is_space :: "char \<Rightarrow> bool" where
  "is_space c = (c \<in> {CHR 0x09, CHR 0x0A, CHR 0x0B, CHR 0x0C, CHR 0x0D,
                       CHR 0x1C, CHR 0x1D, CHR 0x1E, CHR 0x1F, CHR '' ''})"

definition strip :: "string \<Rightarrow> string" where
  "strip s = rev (dropWhile is_space (rev (dropWhile is_space s)))"

definition validate_instruction :: "string \<Rightarrow> bool" where
  "validate_instruction line = (if length line \<noteq> 32 then False else list_all is_bit line)"

text \<open>
  \<open>load_program\<close> on the lines of the input file (opening the file is outside the model).
  It returns \<open>None\<close> where the source returns \<open>False\<close> (an invalid line, or more
  instructions than memory words; memory is then untouched) and the loaded memory where
  the source returns \<open>True\<close>.
\<close>

definition load_program :: "string list \<Rightarrow> int list \<Rightarrow> int list option" where
  "load_program file memory =
     (let instructions = filter (\<lambda>line. line \<noteq> []) (map strip file)
      in if \<not> list_all validate_instruction instructions then None
         else if length instructions > length memory then None
         else Some (map bits_val instructions @ drop (length instructions) memory))"

text \<open>
  A trace line holds the program counter and the 32 register values masked to 32 bits,
  a line of the memory dump the address and the word; their rendering as text
  (\<open>format_registers\<close>, \<open>format_memory\<close>) is not modelled further.
\<close>

definition format_registers :: "int \<Rightarrow> regfile \<Rightarrow> int \<times> int list" where
  "format_registers pc registers = (pc, map (\<lambda>i. registers i AND 0xFFFFFFFF) [0..31])"

definition format_memory :: "int list \<Rightarrow> (int \<times> int) list" where
  "format_memory memory = map (\<lambda>i. (0x00010000 + int i * 4, memory ! i)) [0..<length memory]"

definition max_steps :: nat where
  "max_steps = 10000"

text \<open>
  The local variables of \<open>run_simulation\<close>, and \<open>trace\<close>: the lines written to the output
  file so far, one per \<open>f.write(format_registers(...))\<close>.
\<close>

record sim_state =
  registers :: regfile
  memory :: "int list"
  pc :: int
  halted :: bool
  last_pc :: int
  step_count :: nat
  trace :: "(int \<times> int list) list"

definition loop_cond :: "sim_state \<Rightarrow> bool" where
  "loop_cond st = (\<not> halted st \<and> 0 \<le> pc st \<and> pc st < int (length (memory st)) * 4)"

text \<open>
  One pass through the body of the \<open>while\<close> loop; the flag says whether the pass left the
  loop by \<open>break\<close>. Inside the \<open>try\<close> nothing raises: the index \<open>pc // 4\<close> is in range by
  the loop condition and \<open>execute_instruction\<close> catches its own exceptions, so the
  \<open>except\<close> branch of the driver is never taken.
\<close>

definition cycle :: "sim_state \<Rightarrow> sim_state \<times> bool" where
  "cycle st =
     (if pc st = last_pc st then (st, True)
      else if step_count st > max_steps then (st, True)
      else
        (let st1 = st\<lparr>last_pc := pc st, step_count := step_count st + 1,
                       registers := (registers st)(0 := 0)\<rparr>;
             instr = memory st1 ! nat (pc st1 div 4);
             instr_bin = zfill (drop 2 (bin instr)) 32
         in case execute_instruction instr_bin (pc st1) (registers st1) (memory st1) of
              (new_pc, regs', mem') \<Rightarrow>
                (let st2 = st1\<lparr>registers := regs', memory := mem',
                                trace := trace st1 @ [format_registers (pc st1) regs']\<rparr>
                 in if new_pc = - 1 then (st2\<lparr>halted := True\<rparr>, False)
                    else if new_pc = - 2 then (st2, True)
                    else (st2\<lparr>pc := new_pc\<rparr>, False))))"

function run_loop :: "sim_state \<Rightarrow> sim_state" where
  "run_loop st =
     (if loop_cond st
      then (case cycle st of (st', brk) \<Rightarrow> if brk then st' else run_loop st')
      else st)"
  by pat_completeness auto
termination
  apply (relation "measure (\<lambda>st. Suc max_steps - step_count st)")
   apply simp
  apply (auto simp: cycle_def Let_def split: if_splits prod.splits)
  done

declare run_loop.simps [simp del]

text \<open>The state after at most \<open>n\<close> passes through the loop body.\<close>

fun cycles :: "nat \<Rightarrow> sim_state \<Rightarrow> sim_state" where
  "cycles 0 st = st"
| "cycles (Suc n) st =
     (if loop_cond st
      then (case cycle st of (st', brk) \<Rightarrow> if brk then st' else cycles n st')
      else st)"

definition initial_state :: "int list \<Rightarrow> sim_state" where
  "initial_state mem =
     \<lparr>registers = initialize_registers, memory = mem, pc = 0, halted = False,
      last_pc = - 1, step_count = 0, trace = []\<rparr>"

text \<open>
  \<open>run_simulation\<close> returns whether the machine halted, and what it wrote to the output
  file: the trace lines followed by the memory dump (nothing when loading fails).
\<close>

definition run_simulation ::
  "string list \<Rightarrow> bool \<times> ((int \<times> int list) list \<times> (int \<times> int) list) option" where
  "run_simulation file =
     (case load_program file (initialize_memory 32) of
        None \<Rightarrow> (False, None)
      | Some mem \<Rightarrow>
          (let st = run_loop (initial_state mem)
           in (halted st, Some (trace st, format_memory (memory st)))))"

text \<open>
  The invariant of the driver's loop behind the zero-register property: \<open>x0\<close> holds 0 and
  every trace line written so far shows 0 as its first register value.
\<close>

definition x0_zero :: "sim_state \<Rightarrow> bool" where
  "x0_zero st = (registers st 0 = 0 \<and> list_all (\<lambda>l. hd (snd l) = 0) (trace st))"

section \<open>Properties of the bit codec\<close>

lemma is_bit_simps [simp]: "is_bit CHR ''0''" "is_bit CHR ''1''"
  by (simp_all add: is_bit_def)

lemma bits_val_snoc: "bits_val (s @ [c]) = 2 * bits_val s + bit_val c"
  by (simp add: bits_val_def)

lemma bits_val_Nil: "bits_val [] = 0"
  by (simp add: bits_val_def)

lemma bits_val_append: "bits_val (s @ t) = bits_val s * 2 ^ length t + bits_val t"
proof (induction t rule: rev_induct)
  case Nil
  then show ?case by (simp add: bits_val_Nil)
next
  case (snoc c t)
  have "bits_val (s @ t @ [c]) = 2 * bits_val (s @ t) + bit_val c"
    using bits_val_snoc [of "s @ t" c] by simp
  then show ?case
    by (simp add: snoc.IH bits_val_snoc algebra_simps)
qed

lemma bits_val_Cons: "bits_val (c # t) = bit_val c * 2 ^ length t + bits_val t"
  using bits_val_append [of "[c]" t] bits_val_snoc [of "[]" c] by (simp add: bits_val_Nil)

lemma bits_val_nonneg: "0 \<le> bits_val s"
  by (induction s rule: rev_induct) (simp_all add: bits_val_Nil bits_val_snoc bit_val_def)

lemma bits_val_less: "bits_val s < 2 ^ length s"
  by (induction s rule: rev_induct) (simp_all add: bits_val_Nil bits_val_snoc bit_val_def)

lemma bits_val_replicate_zero: "bits_val (replicate k CHR ''0'' @ s) = bits_val s"
proof -
  have "bits_val (replicate k CHR ''0'') = 0"
    by (induction k) (simp_all add: bits_val_Nil bits_val_Cons bit_val_def)
  then show ?thesis by (simp add: bits_val_append)
qed

lemma bits_val_flip:
  "list_all is_bit s \<Longrightarrow> bits_val (map (\<lambda>b. if b = CHR ''0'' then CHR ''1'' else CHR ''0'') s) = 2 ^ length s - 1 - bits_val s"
  by (induction s rule: rev_induct) (auto simp add: bits_val_Nil bits_val_snoc bit_val_def is_bit_def)

lemma is_bit_flip: "list_all is_bit (map (\<lambda>b. if b = CHR ''0'' then CHR ''1'' else CHR ''0'') s)"
  by (induction s) simp_all

lemma bin_digits_bits: "list_all is_bit (bin_digits n)"
proof (induction n rule: bin_digits.induct)
  case (1 n)
  then show ?case
    by (subst bin_digits.simps) (cases "n < 2", simp_all)
qed

lemma bin_digits_not_Nil: "bin_digits n \<noteq> []"
  by (subst bin_digits.simps) simp

lemma bits_val_bin_digits: "bits_val (bin_digits n) = int n"
proof (induction n rule: bin_digits.induct)
  case (1 n)
  show ?case
  proof (cases "n < 2")
    case True
    then show ?thesis
      by (subst bin_digits.simps) (auto simp: bits_val_Cons bits_val_Nil bit_val_def)
  next
    case False
    then have "bits_val (bin_digits n) = 2 * int (n div 2) + int (n mod 2)"
      using "1.IH" by (subst bin_digits.simps) (simp add: bits_val_snoc bit_val_def)
    also have "\<dots> = int n"
      by presburger
    finally show ?thesis .
  qed
qed

lemma length_bin_digits: "0 < k \<Longrightarrow> n < 2 ^ k \<Longrightarrow> length (bin_digits n) \<le> k"
proof (induction n arbitrary: k rule: bin_digits.induct)
  case (1 n)
  show ?case
  proof (cases "n < 2")
    case True
    then show ?thesis using "1.prems" by (subst bin_digits.simps) simp
  next
    case False
    then obtain j where k: "k = Suc j" and j: "0 < j"
      using "1.prems" by (cases k; cases "k - 1") auto
    have "n div 2 < 2 ^ j" using "1.prems" k by auto
    then have "length (bin_digits (n div 2)) \<le> j"
      using "1.IH" False j by simp
    then show ?thesis using False k by (subst bin_digits.simps) simp
  qed
qed

lemma hd_bin_digits: "0 < n \<Longrightarrow> hd (bin_digits n) = CHR ''1''"
proof (induction n rule: bin_digits.induct)
  case (1 n)
  show ?case
  proof (cases "n < 2")
    case True
    then show ?thesis using "1.prems" by (subst bin_digits.simps) simp
  next
    case False
    then have "hd (bin_digits (n div 2)) = CHR ''1''" using "1.IH" by simp
    then show ?thesis using False
      by (subst bin_digits.simps) (simp add: bin_digits_not_Nil)
  qed
qed


lemma zfill_bits:
  "list_all is_bit s \<Longrightarrow> zfill s w = replicate (w - length s) CHR ''0'' @ s"
  by (cases s) (auto simp: zfill_def is_bit_def)

lemma drop_2_bin: "0 \<le> n \<Longrightarrow> drop 2 (bin n) = bin_digits (nat n)"
  by (simp add: bin_def)

lemma make_binary_nonneg:
  "0 \<le> v \<Longrightarrow> make_binary v w = replicate (w - length (bin_digits (nat v))) CHR ''0'' @ bin_digits (nat v)"
  by (simp add: make_binary_def drop_2_bin zfill_bits bin_digits_bits)

lemma make_binary_neg:
  assumes "v < 0" and "- (2 ^ w) \<le> v"
  shows "make_binary v w =
         replicate (w - length (bin_digits (nat (2 ^ w + v)))) CHR ''0'' @ bin_digits (nat (2 ^ w + v))"
  using assms by (simp add: make_binary_def drop_2_bin zfill_bits bin_digits_bits)

lemma length_bin_digits_lower: "2 ^ k \<le> n \<Longrightarrow> k < length (bin_digits n)"
proof -
  assume "2 ^ k \<le> n"
  then have "int (2 ^ k) \<le> int n"
    by (simp only: of_nat_le_iff)
  then have "(2::int) ^ k \<le> bits_val (bin_digits n)"
    by (simp add: bits_val_bin_digits)
  also have "\<dots> < 2 ^ length (bin_digits n)"
    by (rule bits_val_less)
  finally show ?thesis by simp
qed

lemma int2_bits: "s \<noteq> [] \<Longrightarrow> list_all is_bit s \<Longrightarrow> int2 s = Inr (bits_val s)"
  by (simp add: int2_def)

lemma leading_one_lower:
  assumes "length s = Suc k" and "s ! 0 = CHR ''1''"
  shows "2 ^ k \<le> bits_val s"
proof -
  obtain c t where s: "s = c # t" using assms(1) by (cases s) auto
  then have "bits_val s = 2 ^ k + bits_val t"
    using assms by (simp add: bits_val_Cons bit_val_def)
  then show ?thesis using bits_val_nonneg [of t] by simp
qed

lemma round_trip_nonneg:
  assumes "0 < w" and "0 \<le> v" and "v \<le> 2 ^ (w - 1) - 1"
  shows "binary_to_decimal (make_binary v w) w = Inr v"
proof -
  let ?d = "bin_digits (nat v)"
  let ?s = "make_binary v w"
  obtain k where w: "w = Suc k" using assms(1) by (cases w) auto
  have pos: "(0::int) < 2 ^ k" by simp
  have pw: "(2::int) ^ w = 2 * 2 ^ k" "(2::int) ^ (w - 1) = 2 ^ k" using w by simp_all
  have "v < 2 ^ w" using assms(3) pos unfolding pw by linarith
  then have "nat v < 2 ^ w"
    using assms(2) by (simp add: nat_less_iff)
  then have len: "length ?d \<le> w"
    using assms(1) by (rule length_bin_digits [rotated])
  have s: "?s = replicate (w - length ?d) CHR ''0'' @ ?d"
    using assms(2) by (rule make_binary_nonneg)
  have length: "length ?s = w"
    using len by (simp add: s)
  have bits: "list_all is_bit ?s"
    using bin_digits_bits [of "nat v"] by (auto simp: s list_all_iff)
  have val: "bits_val ?s = v"
    using assms(2) by (simp add: s bits_val_replicate_zero bits_val_bin_digits)
  have "?s ! 0 \<noteq> CHR ''1''"
  proof
    assume "?s ! 0 = CHR ''1''"
    then have "2 ^ k \<le> bits_val ?s"
      using length w leading_one_lower [of ?s k] by simp
    then show False using val assms(3) w by simp
  qed
  moreover have "?s \<noteq> []" using length assms(1) by auto
  ultimately show ?thesis
    using length bits val assms(1)
    by (simp add: binary_to_decimal_def index_def ebind_def int2_bits Let_def)
qed

lemma round_trip_neg:
  assumes "0 < w" and "v < 0" and "- (2 ^ (w - 1)) \<le> v"
  shows "binary_to_decimal (make_binary v w) w = Inr v"
proof -
  let ?n = "nat (2 ^ w + v)"
  let ?d = "bin_digits ?n"
  obtain k where w: "w = Suc k" using assms(1) by (cases w) auto
  have lo: "2 ^ k \<le> ?n"
    using assms w by (simp add: le_nat_iff)
  have hi: "?n < 2 ^ w"
    using assms by (simp add: nat_less_iff)
  have "length ?d \<le> w"
    using assms(1) hi by (rule length_bin_digits)
  moreover have "k < length ?d"
    using lo by (rule length_bin_digits_lower)
  ultimately have len: "length ?d = w"
    using w by simp
  have pos: "(0::int) < 2 ^ k" by simp
  have pw: "(2::int) ^ w = 2 * 2 ^ k" "(2::int) ^ (w - 1) = 2 ^ k" using w by simp_all
  have "- (2 ^ w) \<le> v" using assms(3) pos unfolding pw by linarith
  then have s: "make_binary v w = ?d"
    using assms(2) by (simp add: make_binary_neg len)
  have "0 < ?n" using lo by (metis less_le_trans zero_less_numeral zero_less_power)
  then have hd: "?d ! 0 = CHR ''1''"
    using hd_bin_digits [of ?n] bin_digits_not_Nil [of ?n]
    by (simp add: hd_conv_nth)
  have val: "bits_val ?d = 2 ^ w + v"
    using hi assms w by (simp add: bits_val_bin_digits)
  have "bits_val (map (\<lambda>b. if b = CHR ''0'' then CHR ''1'' else CHR ''0'') ?d) = 2 ^ w - 1 - (2 ^ w + v)"
    using bits_val_flip [OF bin_digits_bits, of ?n] by (simp only: len val)
  then have "int2 (map (\<lambda>b. if b = CHR ''0'' then CHR ''1'' else CHR ''0'') ?d) = Inr (- v - 1)"
    by (simp add: int2_bits is_bit_flip bin_digits_not_Nil)
  then show ?thesis
    using assms(1) hd len
    by (simp add: binary_to_decimal_def index_def ebind_def s Let_def bin_digits_not_Nil)
qed

lemma round_trip:
  assumes "0 < w" and "- (2 ^ (w - 1)) \<le> v" and "v \<le> 2 ^ (w - 1) - 1"
  shows "binary_to_decimal (make_binary v w) w = Inr v"
  using assms round_trip_neg round_trip_nonneg by (cases "v < 0") simp_all

text \<open>
  Claim C2 (bit-codec round trip): for every width \<open>w\<close> among 12, 13 and 21 and every
  signed integer \<open>v\<close> with \<open>-2^(w-1) \<le> v \<le> 2^(w-1) - 1\<close>, decoding the \<open>w\<close>-bit
  two's-complement string that \<open>make_binary\<close> produces returns \<open>v\<close> (and raises nothing).
\<close>

theorem bit_codec_round_trip:
  assumes "w \<in> {12, 13, 21}" and "- (2 ^ (w - 1)) \<le> v" and "v \<le> 2 ^ (w - 1) - 1"
  shows "binary_to_decimal (make_binary v w) w = Inr v"
proof -
  have "0 < w" using assms(1) by auto
  then show ?thesis using assms(2,3) by (rule round_trip)
qed

theorem bit_codec_round_trip_witness:
  "(13::nat) \<in> {12, 13, 21} \<and> - (2 ^ (13 - 1)) \<le> (- 4 :: int) \<and> (- 4 :: int) \<le> 2 ^ (13 - 1) - 1
   \<and> binary_to_decimal (make_binary (- 4) 13) 13 = Inr (- 4)"
  using bit_codec_round_trip [of 13 "- 4"] by simp

section \<open>Properties of the simulation driver\<close>

lemma cycle_running:
  assumes "pc st \<noteq> last_pc st" and "step_count st \<le> max_steps"
    and "execute_instruction (zfill (drop 2 (bin (memory st ! nat (pc st div 4)))) 32)
           (pc st) ((registers st)(0 := 0)) (memory st) = (new_pc, regs', mem')"
  shows "cycle st =
     (let st2 = st\<lparr>last_pc := pc st, step_count := Suc (step_count st), registers := regs',
                     memory := mem', trace := trace st @ [format_registers (pc st) regs']\<rparr>
      in if new_pc = - 1 then (st2\<lparr>halted := True\<rparr>, False)
         else if new_pc = - 2 then (st2, True)
         else (st2\<lparr>pc := new_pc\<rparr>, False))"
  using assms by (simp add: cycle_def Let_def)

lemma run_loop_stop: "\<not> loop_cond st \<Longrightarrow> run_loop st = st"
  by (simp add: run_loop.simps)

lemma run_loop_break: "loop_cond st \<Longrightarrow> cycle st = (st', True) \<Longrightarrow> run_loop st = st'"
  by (simp add: run_loop.simps)

lemma run_loop_continue:
  "loop_cond st \<Longrightarrow> cycle st = (st', False) \<Longrightarrow> run_loop st = run_loop st'"
  by (simp add: run_loop.simps)

section \<open>Halting\<close>

text \<open>The word of \<open>beq zero, zero, 0\<close>, as the driver renders the memory word 99.\<close>

lemma halt_word: "zfill (drop 2 (bin 99)) 32 = ''00000000000000000000000001100011''"
  by code_simp

lemma exec_halt_word:
  "execute_instruction ''00000000000000000000000001100011'' p regs mem = (- 1, regs, mem)"
  by (simp add: execute_instruction_def dispatch_def execute_b_type_def ebind_def Let_def
      index_def slice_def int2_def bits_val_def bit_val_def binary_to_decimal_def is_bit_def)

text \<open>
  Claim C4 (halt precedence): the word that encodes \<open>beq\<close> with both register fields 0 and
  immediate 0 (the only such word, \<open>0x00000063\<close>) makes \<open>execute_instruction\<close> return the
  halt sentinel \<open>-1\<close> for every program counter, register file and memory, leaving both
  unchanged; and when the driver fetches it, the loop ends in that very cycle with
  \<open>halted\<close> set, one trace line written, memory untouched and the registers as the driver
  passed them (it resets \<open>x0\<close> before every instruction).
\<close>

theorem halt_precedence:
  assumes "loop_cond st" and "pc st \<noteq> last_pc st" and "step_count st \<le> max_steps"
    and "memory st ! nat (pc st div 4) = 99"
  shows "execute_instruction ''00000000000000000000000001100011'' p regs mem = (- 1, regs, mem)
       \<and> run_loop st =
           st\<lparr>last_pc := pc st, step_count := Suc (step_count st),
              registers := (registers st)(0 := 0),
              trace := trace st @ [format_registers (pc st) ((registers st)(0 := 0))],
              halted := True\<rparr>"
proof -
  let ?st' = "st\<lparr>last_pc := pc st, step_count := Suc (step_count st),
              registers := (registers st)(0 := 0),
              trace := trace st @ [format_registers (pc st) ((registers st)(0 := 0))],
              halted := True\<rparr>"
  have "cycle st = (?st', False)"
    using assms(2,3,4) cycle_running [OF assms(2,3), of "- 1" "(registers st)(0 := 0)" "memory st"]
    by (simp add: halt_word exec_halt_word Let_def)
  then have "run_loop st = run_loop ?st'"
    using assms(1) by (rule run_loop_continue [rotated])
  also have "\<dots> = ?st'"
    by (rule run_loop_stop) (simp add: loop_cond_def)
  finally show ?thesis
    by (simp add: exec_halt_word)
qed

theorem halt_precedence_witness:
  "loop_cond (initial_state [99]) \<and> memory (initial_state [99]) ! nat (pc (initial_state [99]) div 4) = 99
   \<and> halted (run_loop (initial_state [99]))
   \<and> length (trace (run_loop (initial_state [99]))) = 1
   \<and> memory (run_loop (initial_state [99])) = [99]
   \<and> registers (run_loop (initial_state [99])) = initialize_registers
   \<and> execute_instruction ''00000000000000000000000001100011'' 0 initialize_registers [99]
       = (- 1, initialize_registers, [99])"
  using halt_precedence [of "initial_state [99]" 0 initialize_registers "[99]"]
  by (simp add: initial_state_def loop_cond_def max_steps_def initialize_registers_def fun_upd_idem)

text \<open>
  Claim C9 (funct3-blind halt): every 32-character word with the branch opcode
  \<open>1100011\<close> whose \<open>rs1\<close> field, \<open>rs2\<close> field and decoded immediate are all zero makes
  \<open>execute_instruction\<close> return the halt sentinel, whatever its \<open>funct3\<close> field holds, and
  leaves registers and memory unchanged. The witness runs \<open>bne zero, zero, 0\<close>
  (\<open>funct3 = 001\<close>) and a word whose \<open>funct3 = 111\<close> names no branch.
\<close>

theorem funct3_blind_halt:
  assumes "length instr = 32"
    and "drop 25 instr = ''1100011''"
    and "int2 (slice 12 17 instr) = Inr 0"
    and "int2 (slice 7 12 instr) = Inr 0"
    and "binary_to_decimal
           ([instr ! 0] @ [instr ! 24] @ slice 1 7 instr @ slice 20 24 instr @ ''0'') 13 = Inr 0"
  shows "execute_instruction instr p regs mem = (- 1, regs, mem)"
  using assms
  by (simp add: execute_instruction_def dispatch_def execute_b_type_def ebind_def Let_def index_def)

theorem funct3_blind_halt_witness:
  "slice 17 20 ''00000000000000000001000001100011'' = ''001''
   \<and> execute_instruction ''00000000000000000001000001100011'' 8 initialize_registers [0, 0, 4195]
        = (- 1, initialize_registers, [0, 0, 4195])
   \<and> slice 17 20 ''00000000000000000111000001100011'' = ''111''
   \<and> execute_instruction ''00000000000000000111000001100011'' 8 initialize_registers [0, 0, 28771]
        = (- 1, initialize_registers, [0, 0, 28771])"
  using funct3_blind_halt [of "''00000000000000000001000001100011''" 8 initialize_registers "[0, 0, 4195]"]
    funct3_blind_halt [of "''00000000000000000111000001100011''" 8 initialize_registers "[0, 0, 28771]"]
  by (simp add: slice_def int2_def bits_val_def bit_val_def is_bit_def binary_to_decimal_def
      index_def ebind_def)

section \<open>Arithmetic: \<open>slt\<close>\<close>

text \<open>
  Claim C6 says that \<open>slt\<close> compares the two's-complement readings of the registers. The
  source compares the stored values, which \<open>write_register\<close> keeps in \<open>[0, 2^32)\<close>: with
  \<open>x1 = 0xFFFFFFFF\<close> (what \<open>addi x1, zero, -1\<close> stores for -1) and \<open>x2 = 1\<close>, executing
  \<open>slt x3, x1, x2\<close> writes 0 to \<open>x3\<close>, where the signed comparison \<open>-1 < 1\<close> asks for 1.
\<close>

theorem slt_compares_stored_values:
  "execute_instruction ''00000000001000001010000110110011'' p (regs(1 := 0xFFFFFFFF, 2 := 1)) mem
     = (p + 4, (regs(1 := 0xFFFFFFFF, 2 := 1))(3 := 0), mem)"
  by (simp add: execute_instruction_def dispatch_def execute_r_type_def ebind_def Let_def
      slice_def int2_def bits_val_def bit_val_def is_bit_def write_register_def)

text \<open>The value \<open>addi x1, zero, -1\<close> leaves in \<open>x1\<close>.\<close>

lemma addi_minus_one:
  "execute_instruction ''11111111111100000000000010010011'' p (regs(0 := 0)) mem
     = (p + 4, regs(0 := 0, 1 := 0xFFFFFFFF), mem)"
  by (simp add: execute_instruction_def dispatch_def execute_i_type_def ebind_def Let_def
      slice_def int2_def bits_val_def bit_val_def is_bit_def write_register_def
      binary_to_decimal_def index_def)

section \<open>The zero register\<close>

lemma write_register_x0: "write_register regs rd v 0 = regs 0"
  by (simp add: write_register_def)

lemma execute_r_type_x0:
  "execute_r_type instr p regs mem = Inr (np, regs', mem') \<Longrightarrow> regs' 0 = regs 0"
  by (auto simp: execute_r_type_def ebind_def Let_def write_register_def
      split: sum.splits if_splits)

lemma execute_i_type_x0:
  "execute_i_type instr p regs mem = Inr (np, regs', mem') \<Longrightarrow> regs' 0 = regs 0"
  by (auto simp: execute_i_type_def ebind_def Let_def write_register_def
      split: sum.splits if_splits)

lemma execute_s_type_x0:
  "execute_s_type instr p regs mem = Inr (np, regs', mem') \<Longrightarrow> regs' 0 = regs 0"
  by (auto simp: execute_s_type_def ebind_def Let_def split: sum.splits if_splits)

lemma execute_b_type_x0:
  "execute_b_type instr p regs mem = Inr (np, regs', mem') \<Longrightarrow> regs' 0 = regs 0"
  by (auto simp: execute_b_type_def ebind_def Let_def split: sum.splits if_splits)

lemma execute_j_type_x0:
  "execute_j_type instr p regs mem = Inr (np, regs', mem') \<Longrightarrow> regs' 0 = regs 0"
  by (auto simp: execute_j_type_def ebind_def Let_def write_register_def
      split: sum.splits if_splits)

lemma dispatch_x0:
  "dispatch instr p regs mem = Inr (np, regs', mem') \<Longrightarrow> regs' 0 = regs 0"
  unfolding dispatch_def Let_def
  by (auto split: if_splits
      dest: execute_r_type_x0 execute_i_type_x0 execute_s_type_x0 execute_b_type_x0
        execute_j_type_x0)

lemma execute_instruction_x0:
  "execute_instruction instr p regs mem = (np, regs', mem') \<Longrightarrow> regs' 0 = regs 0"
  by (auto simp: execute_instruction_def split: sum.splits dest: dispatch_x0)

lemma format_registers_x0: "regs 0 = 0 \<Longrightarrow> hd (snd (format_registers p regs)) = 0"
  by (simp add: format_registers_def upto_rec1 [of 0 31])

lemma cycle_x0_zero: "x0_zero st \<Longrightarrow> x0_zero (fst (cycle st))"
  by (auto simp: x0_zero_def cycle_def Let_def format_registers_x0
      split: prod.splits dest!: execute_instruction_x0)

lemma cycles_x0_zero: "x0_zero st \<Longrightarrow> x0_zero (cycles n st)"
proof (induction n arbitrary: st)
  case 0
  then show ?case by simp
next
  case (Suc n)
  obtain st' brk where c: "cycle st = (st', brk)" by (cases "cycle st")
  then have "x0_zero st'"
    using cycle_x0_zero [OF Suc.prems] by simp
  then show ?case
    using c Suc by simp
qed

lemma run_loop_x0_zero: "x0_zero st \<Longrightarrow> x0_zero (run_loop st)"
proof (induction st rule: run_loop.induct)
  case (1 st)
  show ?case
  proof (cases "loop_cond st")
    case False
    then show ?thesis using "1.prems" by (simp add: run_loop.simps)
  next
    case True
    obtain st' brk where c: "cycle st = (st', brk)" by (cases "cycle st")
    then have x0: "x0_zero st'"
      using cycle_x0_zero [OF "1.prems"] by simp
    show ?thesis
    proof (cases brk)
      case True
      then show ?thesis using \<open>loop_cond st\<close> c x0 by (simp add: run_loop.simps)
    next
      case False
      then have "x0_zero (run_loop st')"
        using "1.IH" [OF \<open>loop_cond st\<close> c [symmetric]] x0 by simp
      then show ?thesis using \<open>loop_cond st\<close> c False by (simp add: run_loop.simps)
    qed
  qed
qed

lemma x0_zero_initial: "x0_zero (initial_state mem)"
  by (simp add: x0_zero_def initial_state_def initialize_registers_def)

text \<open>
  Claim C3 (zero-register invariant): for every initial memory (hence every loaded
  program) and every number \<open>n\<close> of passes through the loop, and at the end of the run,
  register \<open>x0\<close> holds 0 and every trace line written shows 0 for \<open>x0\<close>; the register file
  an executor reads is the one the driver passes, in which it has just reset \<open>x0\<close>.
  No instruction changes \<open>x0\<close>, whatever its destination field: \<open>execute_instruction\<close>
  returns a register file with the same \<open>x0\<close>, and \<open>write_register\<close> with destination 0
  returns the register file unchanged.
\<close>

theorem zero_register_invariant:
  "registers (cycles n (initial_state mem)) 0 = 0
   \<and> list_all (\<lambda>l. hd (snd l) = 0) (trace (cycles n (initial_state mem)))
   \<and> registers (run_loop (initial_state mem)) 0 = 0
   \<and> list_all (\<lambda>l. hd (snd l) = 0) (trace (run_loop (initial_state mem)))
   \<and> fst (snd (execute_instruction instr p regs mem')) 0 = regs 0
   \<and> write_register regs 0 v = regs"
proof -
  obtain np regs' m where e: "execute_instruction instr p regs mem' = (np, regs', m)"
    by (cases "execute_instruction instr p regs mem'")
  then have "regs' 0 = regs 0" by (rule execute_instruction_x0)
  moreover have "x0_zero (cycles n (initial_state mem))"
    by (simp add: cycles_x0_zero x0_zero_initial)
  moreover have "x0_zero (run_loop (initial_state mem))"
    by (simp add: run_loop_x0_zero x0_zero_initial)
  ultimately show ?thesis
    using e by (simp add: x0_zero_def write_register_def)
qed

theorem zero_register_invariant_witness:
  "registers (cycles 3 (initial_state [0x00500013, 99])) 0 = 0
   \<and> registers (run_loop (initial_state [0x00500013, 99])) 0 = 0
   \<and> fst (snd (execute_instruction ''00000000010100000000000000010011'' 0 initialize_registers [])) 0 = 0
   \<and> write_register initialize_registers 0 5 = initialize_registers"
  using zero_register_invariant [of 3 "[0x00500013, 99]" "''00000000010100000000000000010011''" 0
      initialize_registers "[]" 5]
  by (simp add: initialize_registers_def)

end
